theory Spec2Isabelle
  imports Complex_Main
begin

section \<open>JavaScript values carried by the event protocol\<close>

text \<open>
  Every payload reaches the server as a deserialised JSON value, or as \<open>undefined\<close> when the
  client sent the event without an argument.  Numbers are the rationals (every finite double
  is one; JSON carries neither NaN nor an infinity).  An object is the list of its own
  properties, each key occurring once.
\<close>

datatype jsval =
    JUndefined
  | JNull
  | JBool bool
  | JNum rat
  | JStr string
  | JArr "jsval list"
  | JObj "(string \<times> jsval) list"

datatype js_error = TypeError

text \<open>
  \<open>a === b\<close>, which on these values is also the key comparison of a JavaScript \<open>Map\<close>.
  Primitives compare by value.  Objects and arrays compare by reference, and two values that
  arrived in different packets are never the same reference.
\<close>

fun js_eq :: "jsval \<Rightarrow> jsval \<Rightarrow> bool" where
  "js_eq JUndefined JUndefined = True"
| "js_eq JNull JNull = True"
| "js_eq (JBool a) (JBool b) = (a = b)"
| "js_eq (JNum a) (JNum b) = (a = b)"
| "js_eq (JStr a) (JStr b) = (a = b)"
| "js_eq _ _ = False"

text \<open>The condition of \<open>if (v)\<close>.\<close>

fun truthy :: "jsval \<Rightarrow> bool" where
  "truthy JUndefined = False"
| "truthy JNull = False"
| "truthy (JBool b) = b"
| "truthy (JNum n) = (n \<noteq> 0)"
| "truthy (JStr s) = (s \<noteq> [])"
| "truthy (JArr _) = True"
| "truthy (JObj _) = True"

definition nullish :: "jsval \<Rightarrow> bool" where
  "nullish v = (v = JUndefined \<or> v = JNull)"

text \<open>
  \<open>v.name\<close> for a value that is neither \<open>null\<close> nor \<open>undefined\<close>.  The names the server reads
  (\<open>uid\<close>, \<open>to\<close>, \<open>message\<close>, \<open>chatId\<close>, \<open>user\<close>, \<open>text\<close>, \<open>sender\<close>, \<open>displayName\<close>,
  \<open>recipientId\<close>, \<open>userId\<close>, \<open>token\<close>) are not properties of a primitive or of an array, so
  only an object can answer with something other than \<open>undefined\<close>.
\<close>

fun jsprop :: "jsval \<Rightarrow> string \<Rightarrow> jsval" where
  "jsprop (JObj fs) n = (case map_of fs n of None \<Rightarrow> JUndefined | Some v \<Rightarrow> v)"
| "jsprop _ n = JUndefined"

text \<open>\<open>v.name\<close> in general: reading a property of \<open>null\<close> or \<open>undefined\<close> throws.\<close>

definition member :: "jsval \<Rightarrow> string \<Rightarrow> js_error + jsval" where
  "member v n = (if nullish v then Inl TypeError else Inr (jsprop v n))"

section \<open>The two process-wide maps\<close>

text \<open>
  A JavaScript \<open>Map\<close> iterates in insertion order; \<open>set\<close> on a key that is present replaces
  the value where it stands, \<open>set\<close> on a new key appends, \<open>delete\<close> removes the entry and
  \<open>get\<close> of a missing key is \<open>undefined\<close>.  \<open>activeUsers\<close> is keyed by \<open>socket.id\<close>.
\<close>

type_synonym sid = string

fun Map_set :: "sid \<Rightarrow> jsval \<Rightarrow> (sid \<times> jsval) list \<Rightarrow> (sid \<times> jsval) list" where
  "Map_set k v [] = [(k, v)]"
| "Map_set k v ((k', v') # es) =
     (if k' = k then (k, v) # es else (k', v') # Map_set k v es)"

definition Map_get :: "sid \<Rightarrow> (sid \<times> jsval) list \<Rightarrow> jsval" where
  "Map_get k es = (case map_of es k of None \<Rightarrow> JUndefined | Some v \<Rightarrow> v)"

definition Map_delete :: "sid \<Rightarrow> (sid \<times> jsval) list \<Rightarrow> (sid \<times> jsval) list" where
  "Map_delete k es = filter (\<lambda>e. fst e \<noteq> k) es"

definition Map_values :: "(sid \<times> jsval) list \<Rightarrow> jsval list" where
  "Map_values es = map snd es"

text \<open>\<open>userTokens\<close> is keyed by the client-supplied \<open>userId\<close>, an arbitrary value.\<close>

fun tokens_set :: "jsval \<Rightarrow> jsval \<Rightarrow> (jsval \<times> jsval) list \<Rightarrow> (jsval \<times> jsval) list" where
  "tokens_set k v [] = [(k, v)]"
| "tokens_set k v ((k', v') # es) =
     (if js_eq k' k then (k', v) # es else (k', v') # tokens_set k v es)"

fun tokens_get :: "jsval \<Rightarrow> (jsval \<times> jsval) list \<Rightarrow> jsval" where
  "tokens_get k [] = JUndefined"
| "tokens_get k ((k', v') # es) = (if js_eq k' k then v' else tokens_get k es)"

section \<open>Server state and the transport\<close>

text \<open>
  \<open>activeUsers\<close> and \<open>userTokens\<close> are the maps of the source.  \<open>sockets\<close> and \<open>rooms\<close> are
  the part of the Socket.IO server the handlers rely on: the connected sockets, and the
  pairs (room, socket) of room membership.
\<close>

record server =
  activeUsers :: "(sid \<times> jsval) list"
  userTokens :: "(jsval \<times> jsval) list"
  sockets :: "sid list"
  rooms :: "(jsval \<times> sid) list"

definition initial :: server where
  "initial = \<lparr>activeUsers = [], userTokens = [], sockets = [], rooms = []\<rparr>"

text \<open>
  The four ways the source addresses an outgoing event: \<open>io.emit\<close>, \<open>io.to(room).emit\<close>,
  \<open>socket.to(room).emit\<close> and \<open>socket.broadcast.emit\<close>.  An emission records the call as the
  handler made it; \<open>recipients\<close> below resolves it to connections.
\<close>

datatype target =
    IoEmit
  | IoTo jsval
  | SocketTo sid jsval
  | SocketBroadcast sid

datatype emission = Emit target string jsval

text \<open>
  The transport is the Socket.IO 4 server, a dependency of the program and not part of its
  sources.  A socket joins the room named by its own id when it connects and leaves every
  room when it closes.  \<open>join\<close> and \<open>to\<close> take one room or an array of rooms; \<open>leave\<close>
  takes one room, and an array, compared as a key, names none.  \<open>io.emit\<close> reaches every
  socket and \<open>io.to(r)\<close> the sockets in \<open>r\<close>.  \<open>socket.to(r)\<close> and \<open>socket.broadcast\<close>
  keep the sender off by excluding the room named by the sender's id: every socket that is
  in that room at the time is passed over, and the sender itself is not once it has left
  it.  Whether the sender is in \<open>r\<close> plays no part.  An operator with no room selected
  reaches every socket it does not exclude.
\<close>

definition room_keys :: "jsval \<Rightarrow> jsval list" where
  "room_keys r = (case r of JArr rs \<Rightarrow> rs | _ \<Rightarrow> [r])"

definition socket_connect :: "sid \<Rightarrow> server \<Rightarrow> server" where
  "socket_connect s st = st\<lparr>sockets := sockets st @ [s], rooms := rooms st @ [(JStr s, s)]\<rparr>"

definition socket_close :: "sid \<Rightarrow> server \<Rightarrow> server" where
  "socket_close s st =
     st\<lparr>sockets := removeAll s (sockets st), rooms := filter (\<lambda>m. snd m \<noteq> s) (rooms st)\<rparr>"

definition socket_join :: "sid \<Rightarrow> jsval \<Rightarrow> server \<Rightarrow> server" where
  "socket_join s r st = st\<lparr>rooms := rooms st @ map (\<lambda>k. (k, s)) (room_keys r)\<rparr>"

definition socket_leave :: "sid \<Rightarrow> jsval \<Rightarrow> server \<Rightarrow> server" where
  "socket_leave s r st =
     st\<lparr>rooms := filter (\<lambda>m. \<not> (snd m = s \<and> js_eq (fst m) r)) (rooms st)\<rparr>"

definition in_room :: "server \<Rightarrow> jsval \<Rightarrow> sid \<Rightarrow> bool" where
  "in_room st k s = list_ex (\<lambda>m. snd m = s \<and> js_eq (fst m) k) (rooms st)"

definition in_rooms :: "server \<Rightarrow> jsval list \<Rightarrow> sid \<Rightarrow> bool" where
  "in_rooms st ks s = (ks = [] \<or> list_ex (\<lambda>k. in_room st k s) ks)"

fun recipients :: "server \<Rightarrow> target \<Rightarrow> sid set" where
  "recipients st IoEmit = set (sockets st)"
| "recipients st (IoTo r) = set (filter (in_rooms st (room_keys r)) (sockets st))"
| "recipients st (SocketTo me r) =
     set (filter (\<lambda>s. \<not> in_room st (JStr me) s \<and> in_rooms st (room_keys r) s) (sockets st))"
| "recipients st (SocketBroadcast me) =
     set (filter (\<lambda>s. \<not> in_room st (JStr me) s) (sockets st))"

section \<open>The event handlers\<close>

text \<open>
  A handler either runs to its end, leaving a state, the events it emitted and the lines it
  wrote with \<open>console.error\<close>, or lets an exception escape.  A parameter written as a
  destructuring pattern, \<open>({ to, message }) => { try { ... } catch ... }\<close>, is bound before
  the body is entered, so a \<open>TypeError\<close> from the pattern is outside the \<open>try\<close>.

  The two source files share the handlers of \<open>user:join\<close>, \<open>message:private\<close>,
  \<open>message:group\<close>, \<open>chat:join\<close>, \<open>typing:start\<close>, \<open>typing:stop\<close> and \<open>disconnect\<close>
  word for word; the longer one adds \<open>userTokens\<close>, \<open>/api/save-token\<close>, \<open>group:join\<close>,
  \<open>group:leave\<close> and \<open>new-message\<close>.  \<open>group:action\<close>, a relay that reads and writes
  neither map, and the upload endpoints are left out.  Of the console output only the
  \<open>console.error\<close> lines of the \<open>catch\<close> blocks are kept.
\<close>

datatype result =
    Uncaught js_error
  | Completed server "emission list" "string list"

fun emitted :: "result \<Rightarrow> emission list" where
  "emitted (Uncaught e) = []"
| "emitted (Completed st es ls) = es"

definition on_user_join :: "server \<Rightarrow> sid \<Rightarrow> jsval \<Rightarrow> result" where
  "on_user_join st s userData =
     (let m = Map_set s userData (activeUsers st)
      in Completed (st\<lparr>activeUsers := m\<rparr>)
           [Emit IoEmit ''users:active'' (JArr (Map_values m))] [])"

text \<open>
  \<open>Array.from(activeUsers.entries()).find(([_, user]) => user.uid === to)\<close>: the entries in
  order, stopping at the first match; the callback throws on an identity that is \<open>null\<close> or
  \<open>undefined\<close>.
\<close>

fun find_uid :: "(sid \<times> jsval) list \<Rightarrow> jsval \<Rightarrow> js_error + (sid \<times> jsval) option" where
  "find_uid [] to = Inr None"
| "find_uid ((k, user) # es) to =
     (case member user ''uid'' of
        Inl e \<Rightarrow> Inl e
      | Inr u \<Rightarrow> if js_eq u to then Inr (Some (k, user)) else find_uid es to)"

definition on_message_private :: "server \<Rightarrow> sid \<Rightarrow> jsval \<Rightarrow> result" where
  "on_message_private st s p =
     (if nullish p then Uncaught TypeError
      else
        let to = jsprop p ''to''; message = jsprop p ''message'' in
        case find_uid (activeUsers st) to of
          Inl e \<Rightarrow> Completed st [] [''Error in message:private:'']
        | Inr None \<Rightarrow> Completed st [] []
        | Inr (Some (recipientSocket, user)) \<Rightarrow>
            if recipientSocket \<noteq> [] then
              Completed st
                [Emit (IoTo (JStr recipientSocket)) ''message:receive''
                   (JObj [(''from'', Map_get s (activeUsers st)), (''message'', message)])] []
            else Completed st [] [])"

definition on_message_group :: "server \<Rightarrow> sid \<Rightarrow> jsval \<Rightarrow> result" where
  "on_message_group st s p =
     (if nullish p then Uncaught TypeError
      else
        let chatId = jsprop p ''chatId''; message = jsprop p ''message'' in
        Completed st
          [Emit (SocketTo s chatId) ''message:receive''
             (JObj [(''from'', Map_get s (activeUsers st)), (''message'', message),
                    (''chatId'', chatId)])] [])"

definition on_chat_join :: "server \<Rightarrow> sid \<Rightarrow> jsval \<Rightarrow> result" where
  "on_chat_join st s chatId = Completed (socket_join s chatId st) [] []"

definition on_typing_start :: "server \<Rightarrow> sid \<Rightarrow> jsval \<Rightarrow> result" where
  "on_typing_start st s p =
     (if nullish p then Uncaught TypeError
      else
        let chatId = jsprop p ''chatId''; user = jsprop p ''user'' in
        Completed st
          [Emit (SocketTo s chatId) ''typing:update''
             (JObj [(''user'', user), (''isTyping'', JBool True)])] [])"

definition on_typing_stop :: "server \<Rightarrow> sid \<Rightarrow> jsval \<Rightarrow> result" where
  "on_typing_stop st s p =
     (if nullish p then Uncaught TypeError
      else
        let chatId = jsprop p ''chatId''; user = jsprop p ''user'' in
        Completed st
          [Emit (SocketTo s chatId) ''typing:update''
             (JObj [(''user'', user), (''isTyping'', JBool False)])] [])"

definition on_group_join :: "server \<Rightarrow> sid \<Rightarrow> jsval \<Rightarrow> result" where
  "on_group_join st s p =
     (if nullish p then Uncaught TypeError
      else
        let chatId = jsprop p ''chatId'';
            st' = socket_join s chatId st;
            user = Map_get s (activeUsers st')
        in Completed st'
             (if truthy user then
                [Emit (SocketTo s chatId) ''group:member_joined''
                   (JObj [(''chatId'', chatId), (''user'', user)])]
              else []) [])"

definition on_group_leave :: "server \<Rightarrow> sid \<Rightarrow> jsval \<Rightarrow> result" where
  "on_group_leave st s p =
     (if nullish p then Uncaught TypeError
      else
        let chatId = jsprop p ''chatId'';
            st' = socket_leave s chatId st;
            user = Map_get s (activeUsers st')
        in Completed st'
             (if truthy user then
                [Emit (SocketTo s chatId) ''group:member_left''
                   (JObj [(''chatId'', chatId), (''user'', user)])]
              else []) [])"

definition on_disconnect :: "server \<Rightarrow> sid \<Rightarrow> jsval \<Rightarrow> result" where
  "on_disconnect st s reason =
     (let m = Map_delete s (activeUsers st)
      in Completed (st\<lparr>activeUsers := m\<rparr>)
           [Emit IoEmit ''users:active'' (JArr (Map_values m))] [])"

text \<open>
  \<open>new-message\<close> calls the two notification services.  Whether a call resolves or rejects is
  decided outside the program, so it is an argument of the handler.  The handler first
  evaluates \<open>data.text\<close>, \<open>data.sender.uid\<close>, \<open>data.sender.displayName\<close> and \<open>data.chatId\<close>
  for the Pusher payload, awaits \<open>pusher.trigger\<close>, then looks the recipient's token up and,
  if there is one, awaits the FCM send inside a \<open>try\<close> of its own, and only then broadcasts.
\<close>

datatype outcome = Resolves | Rejects

definition pusher_payload :: "jsval \<Rightarrow> js_error + jsval" where
  "pusher_payload data =
     (case member data ''text'' of
        Inl e \<Rightarrow> Inl e
      | Inr text \<Rightarrow>
          (case member (jsprop data ''sender'') ''uid'' of
             Inl e \<Rightarrow> Inl e
           | Inr uid \<Rightarrow>
               Inr (JObj [(''message'', text), (''senderId'', uid),
                          (''senderName'', jsprop (jsprop data ''sender'') ''displayName''),
                          (''chatId'', jsprop data ''chatId'')])))"

definition on_new_message :: "server \<Rightarrow> sid \<Rightarrow> jsval \<Rightarrow> outcome \<Rightarrow> outcome \<Rightarrow> result" where
  "on_new_message st s data pusher fcm =
     (case pusher_payload data of
        Inl e \<Rightarrow> Completed st [] [''Error handling message:'']
      | Inr payload \<Rightarrow>
          if pusher = Rejects then Completed st [] [''Error handling message:'']
          else
            let recipientToken = tokens_get (jsprop data ''recipientId'') (userTokens st);
                fcm_log = (if truthy recipientToken \<and> fcm = Rejects
                           then [''Error sending FCM message:''] else [])
            in Completed st [Emit (SocketBroadcast s) ''message-received'' data] fcm_log)"

text \<open>
  \<open>POST /api/save-token\<close>: the body is destructured inside the \<open>try\<close>; the answer is the
  HTTP status.
\<close>

definition save_token :: "server \<Rightarrow> jsval \<Rightarrow> server \<times> nat" where
  "save_token st body =
     (if nullish body then (st, 500)
      else (st\<lparr>userTokens := tokens_set (jsprop body ''userId'') (jsprop body ''token'') (userTokens st)\<rparr>,
            200))"

section \<open>Dispatch and runs\<close>

text \<open>
  The events a socket can deliver to the handlers above.  \<open>new-message\<close> carries the
  outcomes of its two service calls.  The \<open>disconnect\<close> listener runs after the transport has
  removed the socket.
\<close>

datatype event =
    UserJoin jsval
  | MessagePrivate jsval
  | MessageGroup jsval
  | ChatJoin jsval
  | TypingStart jsval
  | TypingStop jsval
  | GroupJoin jsval
  | GroupLeave jsval
  | NewMessage jsval outcome outcome
  | Disconnect jsval

fun dispatch :: "server \<Rightarrow> sid \<Rightarrow> event \<Rightarrow> result" where
  "dispatch st s (UserJoin d) = on_user_join st s d"
| "dispatch st s (MessagePrivate d) = on_message_private st s d"
| "dispatch st s (MessageGroup d) = on_message_group st s d"
| "dispatch st s (ChatJoin d) = on_chat_join st s d"
| "dispatch st s (TypingStart d) = on_typing_start st s d"
| "dispatch st s (TypingStop d) = on_typing_stop st s d"
| "dispatch st s (GroupJoin d) = on_group_join st s d"
| "dispatch st s (GroupLeave d) = on_group_leave st s d"
| "dispatch st s (NewMessage d pusher fcm) = on_new_message st s d pusher fcm"
| "dispatch st s (Disconnect reason) = on_disconnect (socket_close s st) s reason"

datatype input = Connection sid | Inbound sid event

fun step :: "server \<Rightarrow> input \<Rightarrow> result" where
  "step st (Connection s) = Completed (socket_connect s st) [] []"
| "step st (Inbound s e) = dispatch st s e"

text \<open>
  A run threads the state through the inputs and answers with the result of the last one;
  an exception that escapes a handler ends it.
\<close>

fun run :: "server \<Rightarrow> input list \<Rightarrow> result" where
  "run st [] = Completed st [] []"
| "run st (i # ins) =
     (case step st i of
        Uncaught e \<Rightarrow> Uncaught e
      | Completed st' es ls \<Rightarrow> if ins = [] then Completed st' es ls else run st' ins)"

text \<open>What a result put on the wire: each emitted event with the connections it reaches.\<close>

fun delivered :: "result \<Rightarrow> (sid set \<times> string \<times> jsval) list" where
  "delivered (Uncaught e) = []"
| "delivered (Completed st es ls) =
     map (\<lambda>em. case em of Emit t ev payload \<Rightarrow> (recipients st t, ev, payload)) es"

section \<open>Presence as the specification words it\<close>

text \<open>
  The specification describes the presence list by the history of \<open>user:join\<close> and
  \<open>disconnect\<close> events: the identities of the connections still joined, in original join
  order.  The definitions of this section follow those words and do not look at
  \<open>activeUsers\<close>; they are compared with the handlers further down.
\<close>

fun joiners :: "input list \<Rightarrow> sid list" where
  "joiners [] = []"
| "joiners (Inbound s (UserJoin u) # ins) = s # joiners ins"
| "joiners (_ # ins) = joiners ins"

text \<open>Each connection once, in the order of first appearance.\<close>

fun first_occurrences :: "sid list \<Rightarrow> sid list" where
  "first_occurrences [] = []"
| "first_occurrences (x # xs) = x # removeAll x (first_occurrences xs)"

fun is_disconnect_of :: "sid \<Rightarrow> input \<Rightarrow> bool" where
  "is_disconnect_of s (Inbound x (Disconnect r)) = (x = s)"
| "is_disconnect_of s _ = False"

definition disconnected :: "input list \<Rightarrow> sid \<Rightarrow> bool" where
  "disconnected ins s = list_ex (is_disconnect_of s) ins"

text \<open>The identity a connection announced last.\<close>

fun last_identity :: "input list \<Rightarrow> sid \<Rightarrow> jsval" where
  "last_identity [] s = JUndefined"
| "last_identity (Inbound x (UserJoin u) # ins) s =
     (if x = s \<and> s \<notin> set (joiners ins) then u else last_identity ins s)"
| "last_identity (_ # ins) s = last_identity ins s"

definition still_joined :: "input list \<Rightarrow> sid list" where
  "still_joined ins = filter (\<lambda>s. \<not> disconnected ins s) (first_occurrences (joiners ins))"

definition snapshot_spec :: "input list \<Rightarrow> jsval list" where
  "snapshot_spec ins = map (last_identity ins) (still_joined ins)"

text \<open>Histories made of \<open>user:join\<close> and \<open>disconnect\<close> events only.\<close>

fun presence_input :: "input \<Rightarrow> bool" where
  "presence_input (Inbound s (UserJoin u)) = True"
| "presence_input (Inbound s (Disconnect r)) = True"
| "presence_input _ = False"

text \<open>
  A connection is a process-unique handle that is destroyed when it disconnects: no
  \<open>user:join\<close> arrives on it afterwards.
\<close>

fun lifecycle :: "input list \<Rightarrow> bool" where
  "lifecycle [] = True"
| "lifecycle (Inbound s (Disconnect r) # ins) = (s \<notin> set (joiners ins) \<and> lifecycle ins)"
| "lifecycle (_ # ins) = lifecycle ins"

text \<open>What one input does to \<open>activeUsers\<close>.\<close>

fun registry_step :: "(sid \<times> jsval) list \<Rightarrow> input \<Rightarrow> (sid \<times> jsval) list" where
  "registry_step reg (Inbound s (UserJoin u)) = Map_set s u reg"
| "registry_step reg (Inbound s (Disconnect r)) = Map_delete s reg"
| "registry_step reg _ = reg"

section \<open>Facts about the maps and the scan\<close>

lemma find_uid_first:
  assumes "\<forall>e \<in> set pre. \<not> nullish (snd e) \<and> \<not> js_eq (jsprop (snd e) ''uid'') to"
      and "\<not> nullish u" and "js_eq (jsprop u ''uid'') to"
  shows "find_uid (pre @ (c, u) # post) to = Inr (Some (c, u))"
  using assms by (induction pre) (auto simp: member_def)

lemma find_uid_no_match:
  assumes "\<forall>e \<in> set es. nullish (snd e) \<or> \<not> js_eq (jsprop (snd e) ''uid'') to"
  shows "find_uid es to = (if list_ex (\<lambda>e. nullish (snd e)) es then Inl TypeError else Inr None)"
  using assms by (induction es) (auto simp: member_def)


lemma keys_Map_set:
  "map fst (Map_set k v es) = (if k \<in> set (map fst es) then map fst es else map fst es @ [k])"
proof (induction es)
  case Nil
  show ?case by simp
next
  case (Cons e es)
  obtain a b where e: "e = (a, b)" by (cases e)
  show ?case
  proof (cases "a = k")
    case True
    then show ?thesis by (simp add: e)
  next
    case False
    then show ?thesis using Cons.IH by (simp add: e)
  qed
qed

lemma Map_get_Map_set: "Map_get k' (Map_set k v es) = (if k' = k then v else Map_get k' es)"
  by (induction es) (auto simp: Map_get_def)

lemma keys_Map_delete: "map fst (Map_delete k es) = removeAll k (map fst es)"
  by (induction es) (auto simp: Map_delete_def)

lemma Map_get_Map_delete: "k' \<noteq> k \<Longrightarrow> Map_get k' (Map_delete k es) = Map_get k' es"
  by (induction es) (auto simp: Map_get_def Map_delete_def)

lemma Map_get_deleted: "Map_get s (Map_delete s es) = JUndefined"
  by (induction es) (auto simp: Map_get_def Map_delete_def)

lemma values_by_keys:
  "distinct (map fst es) \<Longrightarrow> map snd es = map (\<lambda>k. Map_get k es) (map fst es)"
proof (induction es)
  case Nil
  show ?case by simp
next
  case (Cons e es)
  obtain a b where e: "e = (a, b)" by (cases e)
  from Cons.prems have fresh: "a \<notin> set (map fst es)" and d: "distinct (map fst es)"
    by (simp_all add: e)
  have "Map_get k (e # es) = Map_get k es" if "k \<in> set (map fst es)" for k
    using that fresh by (auto simp: e Map_get_def)
  then have "map (\<lambda>k. Map_get k (e # es)) (map fst es) = map (\<lambda>k. Map_get k es) (map fst es)"
    by (intro map_cong) simp_all
  then show ?case
    using Cons.IH [OF d] by (simp add: e Map_get_def)
qed

lemma tokens_get_set: "js_eq k k \<Longrightarrow> tokens_get k (tokens_set k v es) = v"
  by (induction es) auto

lemma dispatch_tokens:
  "dispatch st s e = Completed st' es ls \<Longrightarrow> userTokens st' = userTokens st"
  by (cases e)
     (auto simp: on_user_join_def on_message_private_def on_message_group_def on_chat_join_def
        on_typing_start_def on_typing_stop_def on_group_join_def on_group_leave_def
        on_new_message_def on_disconnect_def socket_join_def socket_leave_def socket_close_def
        Let_def split: if_splits sum.splits option.splits prod.splits)

lemma step_tokens:
  "step st i = Completed st' es ls \<Longrightarrow> userTokens st' = userTokens st"
  by (cases i) (auto simp: socket_connect_def dest: dispatch_tokens)

lemma run_tokens:
  "run st ins = Completed st' es ls \<Longrightarrow> userTokens st' = userTokens st"
proof (induction ins arbitrary: st)
  case Nil
  then show ?case by simp
next
  case (Cons i ins)
  then show ?case
    by (cases "step st i") (auto split: if_splits dest: step_tokens)
qed

section \<open>The registry against the history of joins and disconnects\<close>

lemma joiners_append: "joiners (xs @ ys) = joiners xs @ joiners ys"
  by (induction xs rule: joiners.induct) auto

lemma disconnected_append:
  "disconnected (xs @ ys) s = (disconnected xs s \<or> disconnected ys s)"
  by (simp add: disconnected_def list_ex_iff) blast

lemma set_first_occurrences: "set (first_occurrences xs) = set xs"
  by (induction xs) auto

lemma distinct_first_occurrences: "distinct (first_occurrences xs)"
  by (induction xs) (auto simp: distinct_removeAll)

lemma first_occurrences_snoc:
  "first_occurrences (xs @ [x]) =
     (if x \<in> set xs then first_occurrences xs else first_occurrences xs @ [x])"
  by (induction xs) (auto simp: set_first_occurrences)

lemma lifecycle_snoc: "lifecycle (ins @ [i]) \<Longrightarrow> lifecycle ins"
  by (induction ins rule: lifecycle.induct) (auto simp: joiners_append)

lemma lifecycle_join_last:
  "lifecycle (ins @ [Inbound s (UserJoin u)]) \<Longrightarrow> \<not> disconnected ins s"
  by (induction ins rule: lifecycle.induct) (auto simp: joiners_append disconnected_def)

lemma last_identity_snoc_join:
  "last_identity (ins @ [Inbound s (UserJoin u)]) x = (if x = s then u else last_identity ins x)"
proof (induction ins)
  case Nil
  show ?case by simp
next
  case (Cons i ins)
  show ?case
  proof (cases i)
    case (Connection c)
    with Cons show ?thesis by simp
  next
    case (Inbound c e)
    with Cons show ?thesis by (cases e) (auto simp: joiners_append)
  qed
qed

lemma last_identity_snoc_disconnect:
  "last_identity (ins @ [Inbound s (Disconnect r)]) x = last_identity ins x"
proof (induction ins)
  case Nil
  show ?case by simp
next
  case (Cons i ins)
  show ?case
  proof (cases i)
    case (Connection c)
    with Cons show ?thesis by simp
  next
    case (Inbound c e)
    with Cons show ?thesis by (cases e) (auto simp: joiners_append)
  qed
qed

lemma still_joined_snoc_join:
  assumes "\<not> disconnected ins s"
  shows "still_joined (ins @ [Inbound s (UserJoin u)]) =
           (if s \<in> set (still_joined ins) then still_joined ins else still_joined ins @ [s])"
  using assms
  by (auto simp: still_joined_def joiners_append first_occurrences_snoc disconnected_append
      disconnected_def set_first_occurrences)

lemma still_joined_snoc_disconnect:
  "still_joined (ins @ [Inbound s (Disconnect r)]) = removeAll s (still_joined ins)"
proof -
  have "filter (\<lambda>x. \<not> disconnected ins x \<and> s \<noteq> x) xs
          = removeAll s (filter (\<lambda>x. \<not> disconnected ins x) xs)" for xs
    by (induction xs) auto
  then show ?thesis
    by (simp add: still_joined_def joiners_append disconnected_append)
       (simp add: disconnected_def)
qed

lemma distinct_still_joined: "distinct (still_joined ins)"
  by (simp add: still_joined_def distinct_first_occurrences)

lemma registry_tracks_presence:
  assumes "lifecycle ins" and "list_all presence_input ins"
  shows "map fst (foldl registry_step [] ins) = still_joined ins \<and>
         (\<forall>s \<in> set (still_joined ins).
            Map_get s (foldl registry_step [] ins) = last_identity ins s)"
  using assms
proof (induction ins rule: rev_induct)
  case Nil
  show ?case by (simp add: still_joined_def)
next
  case (snoc i ins)
  have lc: "lifecycle ins" using snoc.prems(1) by (rule lifecycle_snoc)
  have po: "list_all presence_input ins" and pi: "presence_input i"
    using snoc.prems(2) by simp_all
  note IH = snoc.IH [OF lc po]
  from pi show ?case
  proof (cases i rule: presence_input.cases)
    case (1 s u)
    have nd: "\<not> disconnected ins s"
      using snoc.prems(1) unfolding 1 by (rule lifecycle_join_last)
    show ?thesis
      using IH
      by (auto simp: 1 keys_Map_set Map_get_Map_set still_joined_snoc_join [OF nd]
          last_identity_snoc_join)
  next
    case (2 s r)
    show ?thesis
      using IH
      by (auto simp: 2 keys_Map_delete Map_get_Map_delete still_joined_snoc_disconnect
          last_identity_snoc_disconnect)
  qed (use pi in auto)
qed

lemma registry_snapshot:
  assumes "lifecycle ins" and "list_all presence_input ins"
  shows "Map_values (foldl registry_step [] ins) = snapshot_spec ins"
proof -
  note t = registry_tracks_presence [OF assms]
  have d: "distinct (map fst (foldl registry_step [] ins))"
    using t by (simp add: distinct_still_joined)
  show ?thesis
    unfolding Map_values_def snapshot_spec_def values_by_keys [OF d]
    using t by simp
qed

lemma run_presence:
  assumes "list_all presence_input ins" and "ins \<noteq> []"
  shows "\<exists>st'. run st ins =
           Completed st'
             [Emit IoEmit ''users:active''
                (JArr (Map_values (foldl registry_step (activeUsers st) ins)))] [] \<and>
           activeUsers st' = foldl registry_step (activeUsers st) ins"
  using assms
proof (induction ins arbitrary: st)
  case Nil
  then show ?case by simp
next
  case (Cons i ins)
  from Cons.prems(1) have pi: "presence_input i" and po: "list_all presence_input ins"
    by simp_all
  from pi obtain st1 where
    s1: "step st i = Completed st1
           [Emit IoEmit ''users:active'' (JArr (Map_values (registry_step (activeUsers st) i)))] []"
    and a1: "activeUsers st1 = registry_step (activeUsers st) i"
    by (cases i rule: presence_input.cases)
       (auto simp: on_user_join_def on_disconnect_def socket_close_def Let_def)
  show ?case
  proof (cases "ins = []")
    case True
    then show ?thesis using s1 a1 by simp
  next
    case False
    from Cons.IH [OF po False, of st1] show ?thesis
      using s1 a1 False by simp
  qed
qed

section \<open>Private messages\<close>

text \<open>
  Claim C1, as amended.  Let the registry hold an entry \<open>(c, u)\<close> whose identity \<open>u\<close> has a
  \<open>uid\<close> strictly equal to the target, and let every entry before it carry an identity that
  is neither \<open>null\<close> nor \<open>undefined\<close> and whose \<open>uid\<close> differs from the target.  Then the
  scan returns \<open>(c, u)\<close>, the first match in insertion order, whatever follows it in the
  registry (a later connection registered under the same \<open>uid\<close> included), and the handler
  emits one \<open>message:receive\<close> to the room named \<open>c\<close> with \<open>from\<close> read from the registry
  under the sender's own connection.  The event reaches exactly the connected sockets that
  are in the room named \<open>c\<close> at that time.  That is \<open>c\<close> alone when \<open>c\<close> is connected, is
  still in the room named by its own id (it has not left it) and no other connection has
  joined that room.
\<close>

theorem private_recipient_first_match:
  assumes "activeUsers st = pre @ (c, u) # post"
      and "\<forall>e \<in> set pre. \<not> nullish (snd e) \<and> \<not> js_eq (jsprop (snd e) ''uid'') (jsprop p ''to'')"
      and "\<not> nullish u" and "js_eq (jsprop u ''uid'') (jsprop p ''to'')"
      and "\<not> nullish p" and "c \<noteq> []"
  shows "find_uid (activeUsers st) (jsprop p ''to'') = Inr (Some (c, u)) \<and>
         on_message_private st s p =
           Completed st [Emit (IoTo (JStr c)) ''message:receive''
              (JObj [(''from'', Map_get s (activeUsers st)), (''message'', jsprop p ''message'')])] [] \<and>
         delivered (on_message_private st s p) =
           [({x \<in> set (sockets st). in_room st (JStr c) x}, ''message:receive'',
              JObj [(''from'', Map_get s (activeUsers st)), (''message'', jsprop p ''message'')])] \<and>
         (c \<in> set (sockets st) \<and> (\<forall>x \<in> set (sockets st). in_room st (JStr c) x \<longleftrightarrow> x = c) \<longrightarrow>
            delivered (on_message_private st s p) =
              [({c}, ''message:receive'',
                 JObj [(''from'', Map_get s (activeUsers st)),
                       (''message'', jsprop p ''message'')])])"
proof -
  have f: "find_uid (activeUsers st) (jsprop p ''to'') = Inr (Some (c, u))"
    using assms(1-4) find_uid_first by simp
  have r: "recipients st (IoTo (JStr c)) = {x \<in> set (sockets st). in_room st (JStr c) x}"
    by (simp add: room_keys_def in_rooms_def)
  have one: "{x \<in> set (sockets st). in_room st (JStr c) x} = {c}"
    if "c \<in> set (sockets st)" "\<forall>x \<in> set (sockets st). in_room st (JStr c) x \<longleftrightarrow> x = c"
    using that by auto
  have d: "delivered (on_message_private st s p) =
             [({x \<in> set (sockets st). in_room st (JStr c) x}, ''message:receive'',
               JObj [(''from'', Map_get s (activeUsers st)), (''message'', jsprop p ''message'')])]"
    using f r assms(5,6) by (simp add: on_message_private_def)
  show ?thesis
    using f d one assms(5,6) by (simp add: on_message_private_def)
qed

text \<open>
  Two connections registered under \<open>u1\<close>, \<open>B\<close> before \<open>C\<close>: the message from \<open>A\<close> reaches
  \<open>B\<close> only.
\<close>

theorem private_recipient_first_match_witness:
  "delivered (on_message_private
      \<lparr>activeUsers = [(''A'', JObj [(''uid'', JStr ''u0'')]), (''B'', JObj [(''uid'', JStr ''u1'')]),
                      (''C'', JObj [(''uid'', JStr ''u1'')])],
       userTokens = [], sockets = [''A'', ''B'', ''C''],
       rooms = [(JStr ''A'', ''A''), (JStr ''B'', ''B''), (JStr ''C'', ''C'')]\<rparr>
      ''A'' (JObj [(''to'', JStr ''u1''), (''message'', JStr ''hi'')]))
   = [({''B''}, ''message:receive'',
        JObj [(''from'', JObj [(''uid'', JStr ''u0'')]), (''message'', JStr ''hi'')])]"
  using private_recipient_first_match
    [where st = "\<lparr>activeUsers = [(''A'', JObj [(''uid'', JStr ''u0'')]),
                                   (''B'', JObj [(''uid'', JStr ''u1'')]),
                                   (''C'', JObj [(''uid'', JStr ''u1'')])],
                    userTokens = [], sockets = [''A'', ''B'', ''C''],
                    rooms = [(JStr ''A'', ''A''), (JStr ''B'', ''B''), (JStr ''C'', ''C'')]\<rparr>"
       and pre = "[(''A'', JObj [(''uid'', JStr ''u0'')])]"
       and c = "''B''" and u = "JObj [(''uid'', JStr ''u1'')]"
       and post = "[(''C'', JObj [(''uid'', JStr ''u1'')])]"
       and p = "JObj [(''to'', JStr ''u1''), (''message'', JStr ''hi'')]" and s = "''A''"]
  by (simp add: nullish_def in_room_def in_rooms_def room_keys_def Map_get_def)

text \<open>
  The claim as it was written fails on three histories.  In the first, \<open>A\<close> has announced
  the identity \<open>null\<close> before \<open>B\<close> registered under \<open>u1\<close>: the scan throws on \<open>A\<close>'s entry
  and the message to \<open>u1\<close> reaches nobody.  In the second, \<open>E\<close> has joined the room named by
  \<open>A\<close>'s connection id: the message to \<open>A\<close>'s \<open>uid\<close> reaches \<open>A\<close> and \<open>E\<close>.  In the third,
  \<open>A\<close> has left the room named by its own id with \<open>group:leave\<close>: the message to \<open>A\<close>'s
  \<open>uid\<close> reaches nobody.
\<close>

theorem private_recipient_counterexample:
  "delivered (run initial
     [Connection ''A'', Connection ''B'',
      Inbound ''A'' (UserJoin JNull),
      Inbound ''B'' (UserJoin (JObj [(''uid'', JStr ''u1'')])),
      Inbound ''A'' (MessagePrivate (JObj [(''to'', JStr ''u1''), (''message'', JStr ''hi'')]))]) = []
   \<and>
   delivered (run initial
     [Connection ''A'', Connection ''B'', Connection ''E'',
      Inbound ''A'' (UserJoin (JObj [(''uid'', JStr ''u1'')])),
      Inbound ''E'' (ChatJoin (JStr ''A'')),
      Inbound ''B'' (MessagePrivate (JObj [(''to'', JStr ''u1''), (''message'', JStr ''hi'')]))])
   = [({''A'', ''E''}, ''message:receive'', JObj [(''from'', JUndefined), (''message'', JStr ''hi'')])]
   \<and>
   delivered (run initial
     [Connection ''A'', Connection ''B'',
      Inbound ''A'' (UserJoin (JObj [(''uid'', JStr ''u1'')])),
      Inbound ''A'' (GroupLeave (JObj [(''chatId'', JStr ''A'')])),
      Inbound ''B'' (MessagePrivate (JObj [(''to'', JStr ''u1''), (''message'', JStr ''hi'')]))])
   = [({}, ''message:receive'', JObj [(''from'', JUndefined), (''message'', JStr ''hi'')])]"
  by (simp add: initial_def socket_connect_def on_user_join_def on_chat_join_def socket_join_def
      on_group_leave_def socket_leave_def
      room_keys_def on_message_private_def nullish_def member_def Map_get_def Map_values_def
      in_rooms_def in_room_def Let_def)

text \<open>
  Claim C6.  A private message whose target matches no registered identity (no entry has an
  identity with a \<open>uid\<close> strictly equal to \<open>to\<close>) leaves the state as it was and emits
  nothing, so no connection, the sender included, receives an event.  The handler completes:
  it logs an error when the scan met a \<open>null\<close> or \<open>undefined\<close> identity and nothing
  otherwise.
\<close>

theorem private_no_match_dropped:
  assumes "\<not> nullish p"
      and "\<forall>e \<in> set (activeUsers st).
             nullish (snd e) \<or> \<not> js_eq (jsprop (snd e) ''uid'') (jsprop p ''to'')"
  shows "on_message_private st s p =
           Completed st []
             (if list_ex (\<lambda>e. nullish (snd e)) (activeUsers st)
              then [''Error in message:private:''] else []) \<and>
         delivered (on_message_private st s p) = []"
  using assms(1) find_uid_no_match [OF assms(2)]
  by (simp add: on_message_private_def)

theorem private_no_match_dropped_witness:
  "on_message_private
     \<lparr>activeUsers = [(''A'', JObj [(''uid'', JStr ''u0'')])], userTokens = [],
      sockets = [''A'', ''B''], rooms = [(JStr ''A'', ''A''), (JStr ''B'', ''B'')]\<rparr>
     ''B'' (JObj [(''to'', JStr ''u9''), (''message'', JStr ''hi'')])
   = Completed
       \<lparr>activeUsers = [(''A'', JObj [(''uid'', JStr ''u0'')])], userTokens = [],
        sockets = [''A'', ''B''], rooms = [(JStr ''A'', ''A''), (JStr ''B'', ''B'')]\<rparr> [] []"
  using private_no_match_dropped
    [where st = "\<lparr>activeUsers = [(''A'', JObj [(''uid'', JStr ''u0'')])], userTokens = [],
                    sockets = [''A'', ''B''], rooms = [(JStr ''A'', ''A''), (JStr ''B'', ''B'')]\<rparr>"
       and p = "JObj [(''to'', JStr ''u9''), (''message'', JStr ''hi'')]" and s = "''B''"]
  by (simp add: nullish_def)

section \<open>Group messages\<close>

text \<open>
  Claim C2, as amended.  A group message for room \<open>r\<close> sent by a member of \<open>r\<close> changes
  nothing in the state and emits one \<open>message:receive\<close> whose \<open>from\<close> is the sender's entry
  in the registry, read under the sender's own connection, whatever the payload says.  It
  reaches exactly the connected members of \<open>r\<close> that are not in the room named by the
  sender's connection id.  When that room holds the sender and no other connection, these
  are the connected members of \<open>r\<close> other than the sender.
\<close>

theorem group_message_fanout:
  assumes "\<not> nullish p" and "jsprop p ''chatId'' = JStr r" and "in_room st (JStr r) s"
  shows "on_message_group st s p =
           Completed st
             [Emit (SocketTo s (JStr r)) ''message:receive''
                (JObj [(''from'', Map_get s (activeUsers st)), (''message'', jsprop p ''message''),
                       (''chatId'', JStr r)])] [] \<and>
         delivered (on_message_group st s p) =
           [({x \<in> set (sockets st). in_room st (JStr r) x \<and> \<not> in_room st (JStr s) x},
             ''message:receive'',
             JObj [(''from'', Map_get s (activeUsers st)), (''message'', jsprop p ''message''),
                   (''chatId'', JStr r)])] \<and>
         ((\<forall>x \<in> set (sockets st). in_room st (JStr s) x \<longleftrightarrow> x = s) \<longrightarrow>
            delivered (on_message_group st s p) =
              [({x \<in> set (sockets st). in_room st (JStr r) x} - {s}, ''message:receive'',
                JObj [(''from'', Map_get s (activeUsers st)), (''message'', jsprop p ''message''),
                      (''chatId'', JStr r)])])"
proof -
  have r: "recipients st (SocketTo s (JStr r)) =
             {x \<in> set (sockets st). in_room st (JStr r) x \<and> \<not> in_room st (JStr s) x}"
    by (auto simp: room_keys_def in_rooms_def)
  have own: "{x \<in> set (sockets st). in_room st (JStr r) x \<and> \<not> in_room st (JStr s) x} =
             {x \<in> set (sockets st). in_room st (JStr r) x} - {s}"
    if "\<forall>x \<in> set (sockets st). in_room st (JStr s) x \<longleftrightarrow> x = s"
    using that by auto
  show ?thesis
    using assms(1,2) r own by (simp add: on_message_group_def Let_def)
qed

text \<open>
  \<open>A\<close> and \<open>B\<close> are in \<open>r1\<close>, \<open>C\<close> is not; \<open>A\<close> sends with a forged \<open>from\<close>.
\<close>

theorem group_message_fanout_witness:
  "delivered (on_message_group
      \<lparr>activeUsers = [(''A'', JObj [(''uid'', JStr ''1'')]), (''B'', JObj [(''uid'', JStr ''2'')])],
       userTokens = [], sockets = [''A'', ''B'', ''C''],
       rooms = [(JStr ''A'', ''A''), (JStr ''B'', ''B''), (JStr ''C'', ''C''),
                (JStr ''r1'', ''A''), (JStr ''r1'', ''B'')]\<rparr>
      ''A'' (JObj [(''chatId'', JStr ''r1''), (''message'', JStr ''hi''),
                   (''from'', JObj [(''uid'', JStr ''2'')])]))
   = [({''B''}, ''message:receive'',
       JObj [(''from'', JObj [(''uid'', JStr ''1'')]), (''message'', JStr ''hi''),
             (''chatId'', JStr ''r1'')])]"
  using group_message_fanout
    [where st = "\<lparr>activeUsers = [(''A'', JObj [(''uid'', JStr ''1'')]),
                                   (''B'', JObj [(''uid'', JStr ''2'')])],
                    userTokens = [], sockets = [''A'', ''B'', ''C''],
                    rooms = [(JStr ''A'', ''A''), (JStr ''B'', ''B''), (JStr ''C'', ''C''),
                             (JStr ''r1'', ''A''), (JStr ''r1'', ''B'')]\<rparr>"
       and p = "JObj [(''chatId'', JStr ''r1''), (''message'', JStr ''hi''),
                      (''from'', JObj [(''uid'', JStr ''2'')])]"
       and s = "''A''" and r = "''r1''"]
  by (simp add: nullish_def in_room_def in_rooms_def room_keys_def Map_get_def
      on_message_group_def Let_def)

text \<open>
  The claim as it was written fails on two histories in which \<open>A\<close> and \<open>B\<close> are members of
  \<open>r1\<close>.  In the first, \<open>E\<close> is a member of \<open>r1\<close> too and has also joined the room named by
  \<open>A\<close>'s connection id: \<open>A\<close>'s group message reaches \<open>B\<close> and not the member \<open>E\<close>.  In the
  second, \<open>A\<close> has left the room named by its own id with \<open>group:leave\<close>: \<open>A\<close>'s group
  message reaches \<open>B\<close> and the sender \<open>A\<close>.
\<close>

theorem group_message_fanout_counterexample:
  "delivered (run initial
     [Connection ''A'', Connection ''B'', Connection ''E'',
      Inbound ''A'' (ChatJoin (JStr ''r1'')), Inbound ''B'' (ChatJoin (JStr ''r1'')),
      Inbound ''E'' (ChatJoin (JStr ''r1'')), Inbound ''E'' (ChatJoin (JStr ''A'')),
      Inbound ''A'' (MessageGroup (JObj [(''chatId'', JStr ''r1''), (''message'', JStr ''hi'')]))])
   = [({''B''}, ''message:receive'',
       JObj [(''from'', JUndefined), (''message'', JStr ''hi''), (''chatId'', JStr ''r1'')])]
   \<and>
   delivered (run initial
     [Connection ''A'', Connection ''B'',
      Inbound ''A'' (ChatJoin (JStr ''r1'')), Inbound ''B'' (ChatJoin (JStr ''r1'')),
      Inbound ''A'' (GroupLeave (JObj [(''chatId'', JStr ''A'')])),
      Inbound ''A'' (MessageGroup (JObj [(''chatId'', JStr ''r1''), (''message'', JStr ''hi'')]))])
   = [({''A'', ''B''}, ''message:receive'',
       JObj [(''from'', JUndefined), (''message'', JStr ''hi''), (''chatId'', JStr ''r1'')])]"
  by (simp add: initial_def socket_connect_def on_chat_join_def socket_join_def room_keys_def
      on_group_leave_def socket_leave_def
      on_message_group_def nullish_def Map_get_def in_rooms_def in_room_def Let_def)

text \<open>
  Claim C3, as amended.  A group message for room \<open>r\<close> from a connection that has not joined
  \<open>r\<close> completes without an error and is emitted like a member's: it reaches exactly the
  connected members of \<open>r\<close> that are not in the room named by the sender's connection id.
\<close>

theorem group_send_by_non_member:
  assumes "\<not> nullish p" and "jsprop p ''chatId'' = JStr r" and "\<not> in_room st (JStr r) s"
  shows "on_message_group st s p =
           Completed st
             [Emit (SocketTo s (JStr r)) ''message:receive''
                (JObj [(''from'', Map_get s (activeUsers st)), (''message'', jsprop p ''message''),
                       (''chatId'', JStr r)])] [] \<and>
         delivered (on_message_group st s p) =
           [({x \<in> set (sockets st). in_room st (JStr r) x \<and> \<not> in_room st (JStr s) x},
             ''message:receive'',
             JObj [(''from'', Map_get s (activeUsers st)), (''message'', jsprop p ''message''),
                   (''chatId'', JStr r)])]"
proof -
  have r: "recipients st (SocketTo s (JStr r)) =
             {x \<in> set (sockets st). in_room st (JStr r) x \<and> \<not> in_room st (JStr s) x}"
    by (auto simp: room_keys_def in_rooms_def)
  show ?thesis
    using assms(1,2) r by (simp add: on_message_group_def Let_def)
qed

theorem group_send_by_non_member_witness:
  "delivered (on_message_group
      \<lparr>activeUsers = [], userTokens = [], sockets = [''A'', ''B''],
       rooms = [(JStr ''A'', ''A''), (JStr ''B'', ''B''), (JStr ''r1'', ''B'')]\<rparr>
      ''A'' (JObj [(''chatId'', JStr ''r1''), (''message'', JStr ''hi'')]))
   = [({''B''}, ''message:receive'',
       JObj [(''from'', JUndefined), (''message'', JStr ''hi''), (''chatId'', JStr ''r1'')])]"
  using group_send_by_non_member
    [where st = "\<lparr>activeUsers = [], userTokens = [], sockets = [''A'', ''B''],
                    rooms = [(JStr ''A'', ''A''), (JStr ''B'', ''B''), (JStr ''r1'', ''B'')]\<rparr>"
       and p = "JObj [(''chatId'', JStr ''r1''), (''message'', JStr ''hi'')]"
       and s = "''A''" and r = "''r1''"]
  by (simp add: nullish_def in_room_def in_rooms_def room_keys_def Map_get_def
      on_message_group_def Let_def)

text \<open>
  The claim as it was written fails here: \<open>B\<close> has joined \<open>r1\<close>, \<open>A\<close> has joined no room,
  and \<open>A\<close>'s group message to \<open>r1\<close> reaches \<open>B\<close>.
\<close>

theorem group_send_by_non_member_counterexample:
  "delivered (run initial
     [Connection ''A'', Connection ''B'',
      Inbound ''B'' (ChatJoin (JStr ''r1'')),
      Inbound ''A'' (MessageGroup (JObj [(''chatId'', JStr ''r1''), (''message'', JStr ''hi'')]))])
   = [({''B''}, ''message:receive'',
       JObj [(''from'', JUndefined), (''message'', JStr ''hi''), (''chatId'', JStr ''r1'')])]"
  by (simp add: initial_def socket_connect_def on_chat_join_def socket_join_def room_keys_def
      on_message_group_def nullish_def Map_get_def in_rooms_def in_room_def Let_def)

section \<open>Senders without an identity, and typing events\<close>



text \<open>
  Claim C9.  The \<open>user\<close> field of the \<open>typing:update\<close> emitted for \<open>typing:start\<close> and for
  \<open>typing:stop\<close> is the \<open>user\<close> field of the inbound payload, and the emitted events are the
  same whatever the registry holds: the sender's registered identity is not consulted.
\<close>

theorem typing_user_client_supplied:
  assumes "\<not> nullish p"
  shows "emitted (on_typing_start st s p) =
           [Emit (SocketTo s (jsprop p ''chatId'')) ''typing:update''
              (JObj [(''user'', jsprop p ''user''), (''isTyping'', JBool True)])] \<and>
         emitted (on_typing_stop st s p) =
           [Emit (SocketTo s (jsprop p ''chatId'')) ''typing:update''
              (JObj [(''user'', jsprop p ''user''), (''isTyping'', JBool False)])] \<and>
         emitted (on_typing_start (st\<lparr>activeUsers := reg\<rparr>) s p) = emitted (on_typing_start st s p) \<and>
         emitted (on_typing_stop (st\<lparr>activeUsers := reg\<rparr>) s p) = emitted (on_typing_stop st s p)"
  using assms by (simp add: on_typing_start_def on_typing_stop_def Let_def)

text \<open>\<open>A\<close> is registered as \<open>alice\<close> and reports \<open>bob\<close> as typing.\<close>

theorem typing_user_client_supplied_witness:
  "emitted (on_typing_start
      \<lparr>activeUsers = [(''A'', JObj [(''uid'', JStr ''alice'')])], userTokens = [],
       sockets = [''A''], rooms = [(JStr ''A'', ''A'')]\<rparr>
      ''A'' (JObj [(''chatId'', JStr ''r1''), (''user'', JStr ''bob'')]))
   = [Emit (SocketTo ''A'' (JStr ''r1'')) ''typing:update''
        (JObj [(''user'', JStr ''bob''), (''isTyping'', JBool True)])]"
  using typing_user_client_supplied
    [where st = "\<lparr>activeUsers = [(''A'', JObj [(''uid'', JStr ''alice'')])], userTokens = [],
                    sockets = [''A''], rooms = [(JStr ''A'', ''A'')]\<rparr>"
       and p = "JObj [(''chatId'', JStr ''r1''), (''user'', JStr ''bob'')]" and s = "''A''"]
  by (simp add: nullish_def)

section \<open>Presence\<close>

text \<open>
  Claim C5.  After any non-empty history of \<open>user:join\<close> and \<open>disconnect\<close> events that
  starts from an empty registry, the \<open>users:active\<close> payload broadcast by the last event is
  the list of the identities of the connections still joined, in the order in which those
  connections first joined, one entry for each connection (so equal identities of different
  connections both appear).
\<close>

theorem presence_snapshot_join_order:
  assumes "list_all presence_input ins" and "lifecycle ins" and "ins \<noteq> []"
      and "activeUsers st = []"
  shows "emitted (run st ins) = [Emit IoEmit ''users:active'' (JArr (snapshot_spec ins))]"
proof -
  from run_presence [OF assms(1,3), of st] obtain st' where
    "run st ins = Completed st'
       [Emit IoEmit ''users:active'' (JArr (Map_values (foldl registry_step [] ins)))] []"
    using assms(4) by auto
  then show ?thesis
    using registry_snapshot [OF assms(2,1)] by simp
qed

text \<open>
  \<open>A\<close>, \<open>B\<close> and \<open>C\<close> join, \<open>A\<close> and \<open>C\<close> with the same identity; \<open>B\<close> leaves.
\<close>

theorem presence_snapshot_join_order_witness:
  "emitted (run initial
     [Inbound ''A'' (UserJoin (JStr ''a'')), Inbound ''B'' (UserJoin (JStr ''b'')),
      Inbound ''C'' (UserJoin (JStr ''a'')), Inbound ''B'' (Disconnect JNull)])
   = [Emit IoEmit ''users:active'' (JArr [JStr ''a'', JStr ''a''])]"
  using presence_snapshot_join_order
    [where st = initial
       and ins = "[Inbound ''A'' (UserJoin (JStr ''a'')), Inbound ''B'' (UserJoin (JStr ''b'')),
                   Inbound ''C'' (UserJoin (JStr ''a'')), Inbound ''B'' (Disconnect JNull)]"]
  by (simp add: initial_def snapshot_spec_def still_joined_def disconnected_def)

text \<open>
  Claim C10.  The \<open>disconnect\<close> handler replaces \<open>activeUsers\<close> by the same map without the
  entry of the disconnecting connection (every other connection keeps its entry) and changes
  nothing else, \<open>userTokens\<close> included.
  A token stored by \<open>/api/save-token\<close> under a string \<open>userId\<close> is still the one found
  under that \<open>userId\<close> after any run of socket events, disconnects among them.
\<close>

theorem disconnect_keeps_tokens:
  "on_disconnect st s reason =
     Completed (st\<lparr>activeUsers := Map_delete s (activeUsers st)\<rparr>)
       [Emit IoEmit ''users:active'' (JArr (Map_values (Map_delete s (activeUsers st))))] [] \<and>
   Map_get s (Map_delete s (activeUsers st)) = JUndefined \<and>
   (k \<noteq> s \<longrightarrow> Map_get k (Map_delete s (activeUsers st)) = Map_get k (activeUsers st)) \<and>
   (\<not> nullish body \<and> jsprop body ''userId'' = JStr u \<and>
    run (fst (save_token st body)) ins = Completed st' es ls \<longrightarrow>
      tokens_get (JStr u) (userTokens st') = jsprop body ''token'')"
proof -
  have "tokens_get (JStr u) (userTokens st') = jsprop body ''token''"
    if "\<not> nullish body" "jsprop body ''userId'' = JStr u"
       "run (fst (save_token st body)) ins = Completed st' es ls"
    using that run_tokens [OF that(3)] by (simp add: save_token_def tokens_get_set)
  then show ?thesis
    by (simp add: on_disconnect_def Let_def Map_get_deleted Map_get_Map_delete)
qed

theorem disconnect_keeps_tokens_witness:
  "tokens_get (JStr ''u1'')
     (userTokens (socket_close ''A''
        (fst (save_token initial (JObj [(''userId'', JStr ''u1''), (''token'', JStr ''tok'')])))
        \<lparr>activeUsers := []\<rparr>)) = JStr ''tok''"
  using disconnect_keeps_tokens
    [where st = initial and s = "''A''" and reason = JNull and k = "''B''"
       and body = "JObj [(''userId'', JStr ''u1''), (''token'', JStr ''tok'')]" and u = "''u1''"
       and ins = "[Inbound ''A'' (Disconnect JNull)]"
       and st' = "socket_close ''A''
          (fst (save_token initial (JObj [(''userId'', JStr ''u1''), (''token'', JStr ''tok'')])))
          \<lparr>activeUsers := []\<rparr>"
       and es = "[Emit IoEmit ''users:active'' (JArr [])]" and ls = "[]"]
  by (simp add: nullish_def save_token_def initial_def on_disconnect_def socket_close_def
      Map_delete_def Map_values_def)

section \<open>Where the handlers fall short\<close>

text \<open>
  Claim C4.  When the Pusher call rejects, \<open>new-message\<close> logs the failure and ends without
  its broadcast: no connection receives \<open>message-received\<close>, whatever the payload and
  whatever the FCM call would have done.  Delivery therefore waits on the dispatch and is
  lost with it.
\<close>

theorem new_message_blocked_by_pusher_failure:
  "on_new_message st s data Rejects fcm = Completed st [] [''Error handling message:''] \<and>
   delivered (on_new_message st s data Rejects fcm) = []"
  by (simp add: on_new_message_def split: sum.splits)

text \<open>
  Claim C7.  A payload that is \<open>null\<close> or \<open>undefined\<close> makes the destructuring parameter of
  \<open>message:private\<close>, \<open>message:group\<close>, \<open>typing:start\<close> and \<open>typing:stop\<close> throw before the
  handler's \<open>try\<close> is entered: the exception is not caught by the handler.  A payload that is
  an object without the expected fields raises nothing: an empty \<open>message:private\<close> payload
  is compared as \<open>to = undefined\<close> and is sent to the first connection whose identity has no
  \<open>uid\<close>.
\<close>

theorem malformed_payload_escapes_handler:
  "on_message_private st s JUndefined = Uncaught TypeError \<and>
   on_message_private st s JNull = Uncaught TypeError \<and>
   on_message_group st s JUndefined = Uncaught TypeError \<and>
   on_message_group st s JNull = Uncaught TypeError \<and>
   on_typing_start st s JUndefined = Uncaught TypeError \<and>
   on_typing_start st s JNull = Uncaught TypeError \<and>
   on_typing_stop st s JUndefined = Uncaught TypeError \<and>
   on_typing_stop st s JNull = Uncaught TypeError \<and>
   emitted (on_message_private
     (initial\<lparr>activeUsers := [(''A'', JObj [(''displayName'', JStr ''Al'')])]\<rparr>) ''B'' (JObj []))
   = [Emit (IoTo (JStr ''A'')) ''message:receive''
        (JObj [(''from'', JUndefined), (''message'', JUndefined)])]"
  by (simp add: on_message_private_def on_message_group_def on_typing_start_def
      on_typing_stop_def nullish_def initial_def member_def Map_get_def)

end
